theory Spec2Isabelle
  imports Main
begin

section \<open>react-safe-query: routers, namespaced query keys and context trees\<close>

text \<open>
  The development embeds \<^verbatim>\<open>src/index.ts\<close>: the operation wrappers \<^verbatim>\<open>query\<close> and
  \<^verbatim>\<open>mutation\<close>, the query-key middleware, \<^verbatim>\<open>createRouter\<close> with its counter
  \<^verbatim>\<open>routerCount\<close>, and \<^verbatim>\<open>createContext\<close>.

  JavaScript values (arguments, results, thrown errors, cached data) are one type \<open>'v\<close>.
  Where the source marks a parameter optional, or passes \<^verbatim>\<open>undefined\<close> or \<^verbatim>\<open>null\<close>,
  the model has an \<open>option\<close> and \<open>None\<close> stands for the absent value.
\<close>

subsection \<open>User functions and lifecycle callbacks\<close>

text \<open>
  \<^verbatim>\<open>RouteFunction\<close>: a user function is modelled by what awaiting one call of it gives,
  \<open>Inr r\<close> when it returns or resolves to \<open>r\<close>, \<open>Inl e\<close> when it throws or rejects
  with \<open>e\<close>.
\<close>

type_synonym 'v routeFunction = "'v \<Rightarrow> 'v + 'v"

text \<open>
  \<^verbatim>\<open>QueryOptions\<close>: the three optional callbacks. A callback is called for its effect
  only; the model keeps whether the call returns (\<open>None\<close>) or throws (\<open>Some e\<close>).
\<close>

record 'v queryOptions =
  onError :: "('v \<Rightarrow> 'v option) option"
  onSuccess :: "('v \<Rightarrow> 'v option) option"
  onSettled :: "('v option \<Rightarrow> 'v option \<Rightarrow> 'v option) option"

text \<open>One callback invocation, with the arguments it received.\<close>

datatype 'v event =
    OnSuccess 'v
  | OnError 'v
  | OnSettled "'v option" "'v option"

text \<open>
  What one run of an async function body does: the callbacks it invoked, in order, and how
  its promise settles (\<open>Inl\<close> rejected, \<open>Inr\<close> resolved).
\<close>

type_synonym 'v outcome = "'v event list \<times> ('v + 'v)"

text \<open>\<^verbatim>\<open>options?.cb && options.cb(x)\<close>: nothing happens when the callback is absent.\<close>

definition fire :: "('x \<Rightarrow> 'v option) option \<Rightarrow> 'x \<Rightarrow> 'v event \<Rightarrow> 'v event list \<times> 'v option" where
  "fire cb x ev = (case cb of None \<Rightarrow> ([], None) | Some f \<Rightarrow> ([ev], f x))"

text \<open>
  The \<^verbatim>\<open>catch (error)\<close> block of \<^verbatim>\<open>queryFn\<close> (lines 35 to 39): \<^verbatim>\<open>onError(error)\<close>, then
  \<^verbatim>\<open>onSettled(undefined, error)\<close>, then \<^verbatim>\<open>throw error\<close>. A callback that throws leaves the
  block at once with its own error.
\<close>

definition catchBlock :: "'v queryOptions option \<Rightarrow> 'v \<Rightarrow> 'v outcome" where
  "catchBlock options error =
     (case fire (Option.bind options onError) error (OnError error) of
        (t1, Some thrown) \<Rightarrow> (t1, Inl thrown)
      | (t1, None) \<Rightarrow>
          (case fire (map_option (\<lambda>f. f None) (Option.bind options onSettled)) (Some error)
                  (OnSettled None (Some error)) of
             (t2, Some thrown) \<Rightarrow> (t1 @ t2, Inl thrown)
           | (t2, None) \<Rightarrow> (t1 @ t2, Inl error)))"

text \<open>
  The body of \<^verbatim>\<open>queryFn\<close> (lines 29 to 40). The \<^verbatim>\<open>try\<close> block holds the awaited call of
  the user function and both success callbacks, so an exception of any of the three
  enters the \<^verbatim>\<open>catch\<close> block.
\<close>

definition queryFnBody :: "'v routeFunction \<Rightarrow> 'v \<Rightarrow> 'v queryOptions option \<Rightarrow> 'v outcome" where
  "queryFnBody queryFn args options =
     (case queryFn args of
        Inl error \<Rightarrow> catchBlock options error
      | Inr result \<Rightarrow>
          (case fire (Option.bind options onSuccess) result (OnSuccess result) of
             (t1, Some thrown) \<Rightarrow>
               (case catchBlock options thrown of (t, r) \<Rightarrow> (t1 @ t, r))
           | (t1, None) \<Rightarrow>
               (case fire (map_option (\<lambda>f x. f x None) (Option.bind options onSettled))
                       (Some result) (OnSettled (Some result) None) of
                  (t2, Some thrown) \<Rightarrow>
                    (case catchBlock options thrown of (t, r) \<Rightarrow> (t1 @ t2 @ t, r))
                | (t2, None) \<Rightarrow> (t1 @ t2, Inr result))))"

subsection \<open>Queries\<close>

text \<open>
  The object handed to \<^verbatim>\<open>useTanStackQuery\<close> (lines 26 to 41): the key \<^verbatim>\<open>[_key, args]\<close>,
  the fetcher, and the caller's options, which are spread into it unchanged.
\<close>

record 'v tanStackQuery =
  queryKey :: "string option \<times> 'v option"
  queryFn :: "'v outcome"
  spreadOptions :: "'v queryOptions option"

text \<open>
  The function values that the \<^verbatim>\<open>useQuery\<close> slot of a Query object can hold:
  \<^item> \<open>UseQuery queryFn\<close> is the closure \<^verbatim>\<open>(args, options, _key) => ...\<close> that \<^verbatim>\<open>query\<close>
    creates (line 22);
  \<^item> \<open>Namespaced originalUseQuery fullKey\<close> is the closure
    \<^verbatim>\<open>(args, options) => originalUseQuery(args, options, routerId + '/' + key)\<close> that the
    middleware installs (line 89). It has two parameters: a third argument is dropped.
\<close>

datatype 'v useQueryFn =
    UseQuery "'v routeFunction"
  | Namespaced "'v useQueryFn" string

text \<open>Calling such a function value with \<^verbatim>\<open>(args, options, _key)\<close>.\<close>

fun callUseQuery :: "'v useQueryFn \<Rightarrow> 'v \<Rightarrow> 'v queryOptions option \<Rightarrow> string option \<Rightarrow> 'v tanStackQuery" where
  "callUseQuery (UseQuery queryFn') args options key =
     \<lparr>queryKey = (key, Some args),
      queryFn = queryFnBody queryFn' args options,
      spreadOptions = options\<rparr>"
| "callUseQuery (Namespaced originalUseQuery fullKey') args options key =
     callUseQuery originalUseQuery args options (Some fullKey')"

subsection \<open>Mutations\<close>

text \<open>
  The object handed to \<^verbatim>\<open>useTanStackMutation\<close> (lines 49 to 55): the caller's options,
  of a type \<open>'o\<close> that the wrapper never inspects, and the function
  \<^verbatim>\<open>async (args) => { const res = await mutationFn(args); return res; }\<close>.
\<close>

record ('v, 'o) tanStackMutation =
  mutationFn :: "'v routeFunction"
  mutationOptions :: "'o option"

subsection \<open>Routes and the module state\<close>

text \<open>
  A value of a router definition (type \<^verbatim>\<open>Routes\<close>) is a Query object, a Mutation object or
  a Router Instance. The only write of the module to an object is
  \<^verbatim>\<open>value.useQuery = ...\<close> in the middleware, and no object is compared by identity, so
  only Query objects live in a store: \<open>Query a\<close> is a reference to the Query object whose
  \<^verbatim>\<open>useQuery\<close> slot is at address \<open>a\<close>. Mutation objects and Router Instances are values.

  \<open>Router members routes routerId\<close> is the object
  \<^verbatim>\<open>{...routes, useContext: createContext(routes, routerId)}\<close>: \<open>members\<close> are its
  properties other than \<^verbatim>\<open>useContext\<close>, and \<open>routes\<close> and \<open>routerId\<close> are what the
  closure \<^verbatim>\<open>useContext\<close> captured.

  A definition is the list \<^verbatim>\<open>Object.entries(routes)\<close>, in that order; the property names
  of an object are distinct.

  The source tells the three apart by
  \<^verbatim>\<open>'useQuery' in value && typeof value.useQuery === 'function'\<close> (true of a Query object
  only: a property of a Router Instance is an object, never a function) and
  \<^verbatim>\<open>'useContext' in value\<close> (true of a Router Instance only).
\<close>

datatype 'v route =
    Query nat
  | Mutation "'v routeFunction"
  | Router (members: "(string \<times> 'v route) list")
           (contextRoutes: "(string \<times> 'v route) list")
           (contextId: string)

text \<open>
  The module state: \<^verbatim>\<open>let routerCount = 0\<close> (line 94) and the \<^verbatim>\<open>useQuery\<close> slots of the
  Query objects created so far. A JavaScript number counts exactly far beyond what a
  process can reach, so the counter is a natural number.
\<close>

record 'v state =
  routerCount :: nat
  queries :: "'v useQueryFn list"

definition initial :: "'v state" where
  "initial = \<lparr>routerCount = 0, queries = []\<rparr>"

text \<open>\<^verbatim>\<open>query\<close> (lines 19 to 43) returns a new object \<^verbatim>\<open>{ useQuery }\<close>.\<close>

definition query :: "'v routeFunction \<Rightarrow> 'v state \<Rightarrow> 'v route \<times> 'v state" where
  "query queryFn' s = (Query (length (queries s)), s\<lparr>queries := queries s @ [UseQuery queryFn']\<rparr>)"

text \<open>\<^verbatim>\<open>mutation\<close> (lines 45 to 57) returns a new object \<^verbatim>\<open>{ useMutation }\<close>.\<close>

definition mutation :: "'v routeFunction \<Rightarrow> 'v route" where
  "mutation mutationFn' = Mutation mutationFn'"

text \<open>
  The public call \<^verbatim>\<open>leaf.useMutation(options)\<close> (lines 48 to 55); on anything but a
  Mutation object it is a \<^verbatim>\<open>TypeError\<close>, here \<open>None\<close>.
\<close>

fun useMutation :: "'v route \<Rightarrow> 'o option \<Rightarrow> ('v, 'o) tanStackMutation option" where
  "useMutation (Mutation mutationFn') options =
     Some \<lparr>mutationFn = (\<lambda>args. case mutationFn' args of Inl error \<Rightarrow> Inl error | Inr res \<Rightarrow> Inr res),
           mutationOptions = options\<rparr>"
| "useMutation (Query a) options = None"
| "useMutation (Router ms rs rid) options = None"

text \<open>
  The public call \<^verbatim>\<open>leaf.useQuery(args, options)\<close>: it reads the slot as it is now and
  calls it with two arguments. On anything but a Query object the call is a
  \<^verbatim>\<open>TypeError\<close>, here \<open>None\<close>; so is it at an address that no object has, which
  JavaScript cannot form.
\<close>

fun useQuery :: "'v state \<Rightarrow> 'v route \<Rightarrow> 'v \<Rightarrow> 'v queryOptions option \<Rightarrow> 'v tanStackQuery option" where
  "useQuery s (Query a) args options =
     (if a < length (queries s) then Some (callUseQuery (queries s ! a) args options None) else None)"
| "useQuery s (Mutation f) args options = None"
| "useQuery s (Router ms rs rid) args options = None"

text \<open>\<^verbatim>\<open>obj[name].useQuery(args, options)\<close> on a definition or on the members of an instance.\<close>

definition invoke :: "(string \<times> 'v route) list \<Rightarrow> string \<Rightarrow> 'v state \<Rightarrow> 'v \<Rightarrow> 'v queryOptions option \<Rightarrow> 'v tanStackQuery option" where
  "invoke obj name s args options =
     (case map_of obj name of None \<Rightarrow> None | Some value \<Rightarrow> useQuery s value args options)"

subsection \<open>Namespace ids and the query-key middleware\<close>

text \<open>\<^verbatim>\<open>routerCount++ + ''\<close>: the decimal numeral of a non-negative integer.\<close>

fun digit :: "nat \<Rightarrow> char" where
  "digit d =
     (if d = 0 then CHR ''0'' else if d = 1 then CHR ''1'' else if d = 2 then CHR ''2''
      else if d = 3 then CHR ''3'' else if d = 4 then CHR ''4'' else if d = 5 then CHR ''5''
      else if d = 6 then CHR ''6'' else if d = 7 then CHR ''7'' else if d = 8 then CHR ''8''
      else CHR ''9'')"

fun string_of_nat :: "nat \<Rightarrow> string" where
  "string_of_nat n =
     (if n < 10 then [digit n] else string_of_nat (n div 10) @ [digit (n mod 10)])"

text \<open>\<^verbatim>\<open>routerId + '/' + key\<close> (lines 65 and 89).\<close>

definition fullKey :: "string \<Rightarrow> string \<Rightarrow> string" where
  "fullKey routerId key = routerId @ ''/'' @ key"

text \<open>
  \<^verbatim>\<open>applyQueryKeyMiddleware\<close> (lines 85 to 92), on the store of slots. At an address that
  no object has, \<open>qs[a := x]\<close> is \<open>qs\<close>.
\<close>

fun applyQueryKeyMiddleware :: "(string \<times> 'v route) list \<Rightarrow> string \<Rightarrow> 'v useQueryFn list \<Rightarrow> 'v useQueryFn list" where
  "applyQueryKeyMiddleware [] routerId qs = qs"
| "applyQueryKeyMiddleware ((key, Query a) # rest) routerId qs =
     applyQueryKeyMiddleware rest routerId (qs[a := Namespaced (qs ! a) (fullKey routerId key)])"
| "applyQueryKeyMiddleware ((key, Mutation f) # rest) routerId qs =
     applyQueryKeyMiddleware rest routerId qs"
| "applyQueryKeyMiddleware ((key, Router ms rs rid) # rest) routerId qs =
     applyQueryKeyMiddleware rest routerId qs"

subsection \<open>Context trees\<close>





record ('v, 'f) engineFilters =
  matchQueryKey :: "string option \<times> 'v option"
  spreadFilters :: "'f option"

text \<open>The calls an accessor makes on the query client (lines 70 to 73).\<close>

datatype ('v, 'f) clientCall =
    GetQueryData "string option \<times> 'v option"
  | SetQueryData "string option \<times> 'v option" 'v
  | CancelQueries "('v, 'f) engineFilters"
  | InvalidateQueries "('v, 'f) engineFilters"

definition getData :: "string \<Rightarrow> 'v option \<Rightarrow> ('v, 'f) clientCall" where
  "getData baseKey queryKey' = GetQueryData (Some baseKey, queryKey')"

definition setData :: "string \<Rightarrow> 'v option \<Rightarrow> 'v \<Rightarrow> ('v, 'f) clientCall" where
  "setData baseKey queryKey' data = SetQueryData (Some baseKey, queryKey') data"




text \<open>The key a client call addresses.\<close>

fun callKey :: "('v, 'f) clientCall \<Rightarrow> string option \<times> 'v option" where
  "callKey (GetQueryData k) = k"
| "callKey (SetQueryData k d) = k"
| "callKey (CancelQueries f) = matchQueryKey f"
| "callKey (InvalidateQueries f) = matchQueryKey f"

subsection \<open>Composition\<close>

text \<open>
  \<^verbatim>\<open>createRouter\<close> (lines 95 to 103). In the returned object a property \<^verbatim>\<open>useContext\<close> of
  the definition is replaced by the accessor, since the accessor is written after the
  spread.
\<close>

definition createRouter :: "(string \<times> 'v route) list \<Rightarrow> 'v state \<Rightarrow> 'v route \<times> 'v state" where
  "createRouter routes s =
     (let routerId = string_of_nat (routerCount s);
          s1 = s\<lparr>routerCount := routerCount s + 1\<rparr>;
          s2 = s1\<lparr>queries := applyQueryKeyMiddleware routes routerId (queries s1)\<rparr>
      in (Router (filter (\<lambda>(key, value). key \<noteq> ''useContext'') routes) routes routerId, s2))"

subsection \<open>Client programs\<close>

text \<open>
  A client program is a sequence of calls of the three exports; \<open>run\<close> gives the values
  the calls return, in order, and the final module state.
\<close>

datatype 'v call =
    CallQuery "'v routeFunction"
  | CallMutation "'v routeFunction"
  | CallCreateRouter "(string \<times> 'v route) list"

fun exec :: "'v call \<Rightarrow> 'v state \<Rightarrow> 'v route \<times> 'v state" where
  "exec (CallQuery f) s = query f s"
| "exec (CallMutation f) s = (mutation f, s)"
| "exec (CallCreateRouter routes) s = createRouter routes s"

fun run :: "'v call list \<Rightarrow> 'v state \<Rightarrow> 'v route list \<times> 'v state" where
  "run [] s = ([], s)"
| "run (c # cs) s =
     (case exec c s of (r, s1) \<Rightarrow> (case run cs s1 of (rs, s2) \<Rightarrow> (r # rs, s2)))"

text \<open>The namespace ids of the instances among returned values, in order.\<close>

fun routerIds :: "'v route list \<Rightarrow> string list" where
  "routerIds [] = []"
| "routerIds (Router ms rs rid # vs) = rid # routerIds vs"
| "routerIds (Query a # vs) = routerIds vs"
| "routerIds (Mutation f # vs) = routerIds vs"

text \<open>The number of compositions in a program.\<close>

fun compositions :: "'v call list \<Rightarrow> nat" where
  "compositions [] = 0"
| "compositions (CallCreateRouter routes # cs) = Suc (compositions cs)"
| "compositions (CallQuery f # cs) = compositions cs"
| "compositions (CallMutation f # cs) = compositions cs"

text \<open>The addresses of the direct Query leaves of a definition, one per entry.\<close>

fun queryLeaves :: "(string \<times> 'v route) list \<Rightarrow> nat list" where
  "queryLeaves [] = []"
| "queryLeaves ((key, Query a) # rest) = a # queryLeaves rest"
| "queryLeaves ((key, Mutation f) # rest) = queryLeaves rest"
| "queryLeaves ((key, Router ms rs rid) # rest) = queryLeaves rest"

subsection \<open>The cache engine\<close>

text \<open>
  Modelled from the spec: the query client of \<^verbatim>\<open>@tanstack/react-query\<close>, an external
  collaborator with no code in this repository. The spec gives it as a key-addressed
  cache; \<open>fetches\<close> counts the fetcher executions the engine has started.
\<close>

record 'v queryClient =
  cache :: "string option \<times> 'v option \<Rightarrow> 'v option"
  fetches :: nat

text \<open>
  Modelled from the spec: \<^verbatim>\<open>getQueryData(key) -> Result | absent\<close> of the external engine,
  the value currently stored under the key.
\<close>

definition getQueryData :: "'v queryClient \<Rightarrow> string option \<times> 'v option \<Rightarrow> 'v option" where
  "getQueryData client key = cache client key"

text \<open>
  Modelled from the spec: \<^verbatim>\<open>setQueryData(key, data) -> void\<close> of the external engine, which
  writes the data under the key and does not trigger a fetch.
\<close>

definition setQueryData :: "'v queryClient \<Rightarrow> string option \<times> 'v option \<Rightarrow> 'v \<Rightarrow> 'v queryClient" where
  "setQueryData client key data = client\<lparr>cache := (cache client)(key \<mapsto> data)\<rparr>"

text \<open>
  Modelled from the spec: the external engine performing a client call of an accessor,
  giving the value the call returns and the engine afterwards. \<^verbatim>\<open>cancelQueries\<close> and
  \<^verbatim>\<open>invalidateQueries\<close> return nothing and leave the stored data as they are.
\<close>

fun perform :: "('v, 'f) clientCall \<Rightarrow> 'v queryClient \<Rightarrow> 'v option \<times> 'v queryClient" where
  "perform (GetQueryData key) client = (getQueryData client key, client)"
| "perform (SetQueryData key data) client = (None, setQueryData client key data)"
| "perform (CancelQueries f) client = (None, client)"
| "perform (InvalidateQueries f) client = (None, client)"

subsection \<open>Observations on slots and definitions\<close>

text \<open>
  Three notions for the statements below. \<open>boundPrefix u\<close> is the prefix that a slot
  holding \<open>u\<close> has bound: the one the innermost wrapper passes to the closure of
  \<^verbatim>\<open>query\<close>, and \<open>None\<close> while no wrapper is installed. \<open>wrappedFn u\<close> is the user
  function inside. \<open>firstName a routes\<close> is the name of the first entry of a definition
  whose value is the Query object at \<open>a\<close>.
\<close>

fun boundPrefix :: "'v useQueryFn \<Rightarrow> string option" where
  "boundPrefix (UseQuery f) = None"
| "boundPrefix (Namespaced u p) = (case boundPrefix u of None \<Rightarrow> Some p | Some q \<Rightarrow> Some q)"

fun wrappedFn :: "'v useQueryFn \<Rightarrow> 'v routeFunction" where
  "wrappedFn (UseQuery f) = f"
| "wrappedFn (Namespaced u p) = wrappedFn u"

fun firstName :: "nat \<Rightarrow> (string \<times> 'v route) list \<Rightarrow> string option" where
  "firstName a [] = None"
| "firstName a ((key, Query b) # rest) = (if a = b then Some key else firstName a rest)"
| "firstName a ((key, Mutation f) # rest) = firstName a rest"
| "firstName a ((key, Router ms rs rid) # rest) = firstName a rest"


text \<open>
  The invariant of the store behind key uniqueness: every bound prefix is the full key of
  an id already handed out and some name, and no two slots have the same bound prefix.
\<close>

definition prefixInvariant :: "'v state \<Rightarrow> bool" where
  "prefixInvariant s \<longleftrightarrow>
     (\<forall>a<length (queries s). \<forall>p. boundPrefix (queries s ! a) = Some p \<longrightarrow>
        (\<exists>i<routerCount s. \<exists>n. p = fullKey (string_of_nat i) n))
   \<and> (\<forall>a<length (queries s). \<forall>b<length (queries s).
        boundPrefix (queries s ! a) \<noteq> None \<longrightarrow>
        boundPrefix (queries s ! a) = boundPrefix (queries s ! b) \<longrightarrow> a = b)"

section \<open>Properties\<close>

subsection \<open>Decimal numerals and key prefixes\<close>

declare string_of_nat.simps [simp del]

lemma digit_inj: "a < 10 \<Longrightarrow> b < 10 \<Longrightarrow> digit a = digit b \<Longrightarrow> a = b"
  by (simp split: if_splits) arith

lemma digit_not_slash: "digit d \<noteq> CHR ''/''"
  by simp

lemma string_of_nat_nonempty: "string_of_nat n \<noteq> []"
  by (subst string_of_nat.simps) simp

lemma string_of_nat_no_slash: "CHR ''/'' \<notin> set (string_of_nat n)"
proof (induction n rule: string_of_nat.induct)
  case (1 n)
  show ?case
  proof (cases "n < 10")
    case True
    then have "string_of_nat n = [digit n]" by (subst string_of_nat.simps) simp
    then show ?thesis using digit_not_slash [of n] by (simp del: digit.simps)
  next
    case False
    then have "string_of_nat n = string_of_nat (n div 10) @ [digit (n mod 10)]"
      by (subst string_of_nat.simps) simp
    with 1 False show ?thesis using digit_not_slash [of "n mod 10"]
      by (simp del: digit.simps)
  qed
qed

lemma string_of_nat_inj: "string_of_nat n = string_of_nat m \<Longrightarrow> n = m"
proof (induction n arbitrary: m rule: string_of_nat.induct)
  case (1 n)
  show ?case
  proof (cases "n < 10")
    case True
    have sn: "string_of_nat n = [digit n]" using True by (subst string_of_nat.simps) simp
    have "m < 10"
    proof (rule ccontr)
      assume "\<not> m < 10"
      then have "string_of_nat m = string_of_nat (m div 10) @ [digit (m mod 10)]"
        by (subst string_of_nat.simps) simp
      with sn "1.prems" have "string_of_nat (m div 10) = []" by (simp del: digit.simps)
      then show False using string_of_nat_nonempty by blast
    qed
    then have "string_of_nat m = [digit m]" by (subst string_of_nat.simps) simp
    with sn "1.prems" have "digit n = digit m" by (simp del: digit.simps)
    then show ?thesis using True \<open>m < 10\<close> digit_inj by blast
  next
    case False
    have sn: "string_of_nat n = string_of_nat (n div 10) @ [digit (n mod 10)]"
      using False by (subst string_of_nat.simps) simp
    have "\<not> m < 10"
    proof
      assume "m < 10"
      then have "string_of_nat m = [digit m]" by (subst string_of_nat.simps) simp
      with sn "1.prems" have "string_of_nat (n div 10) = []" by (simp del: digit.simps)
      then show False using string_of_nat_nonempty by blast
    qed
    then have sm: "string_of_nat m = string_of_nat (m div 10) @ [digit (m mod 10)]"
      by (subst string_of_nat.simps) simp
    from sn sm "1.prems" have a: "string_of_nat (n div 10) = string_of_nat (m div 10)"
      and b: "digit (n mod 10) = digit (m mod 10)" by (simp_all del: digit.simps)
    from "1.IH" [OF False a] have "n div 10 = m div 10" .
    moreover from b have "n mod 10 = m mod 10" using digit_inj [of "n mod 10" "m mod 10"] by simp
    ultimately show ?thesis by (metis div_mult_mod_eq)
  qed
qed

lemma split_at_sep:
  "c \<notin> set xs \<Longrightarrow> c \<notin> set xs' \<Longrightarrow> xs @ c # ys = xs' @ c # ys' \<Longrightarrow> xs = xs' \<and> ys = ys'"
proof (induction xs arbitrary: xs')
  case Nil
  then show ?case by (cases xs') auto
next
  case (Cons x xs)
  then show ?case by (cases xs') auto
qed

lemma fullKey_inj:
  "fullKey (string_of_nat i) n = fullKey (string_of_nat j) m \<longleftrightarrow> i = j \<and> n = m"
proof
  assume "fullKey (string_of_nat i) n = fullKey (string_of_nat j) m"
  then have "string_of_nat i @ CHR ''/'' # n = string_of_nat j @ CHR ''/'' # m"
    by (simp add: fullKey_def)
  then have "string_of_nat i = string_of_nat j \<and> n = m"
    using split_at_sep string_of_nat_no_slash by metis
  then show "i = j \<and> n = m" using string_of_nat_inj by blast
qed simp

lemma createRouter_counter:
  "routerCount (snd (createRouter routes s)) = Suc (routerCount s)"
  "contextId (fst (createRouter routes s)) = string_of_nat (routerCount s)"
  "routerIds (fst (createRouter routes s) # vs) = string_of_nat (routerCount s) # routerIds vs"
  by (simp_all add: createRouter_def Let_def)

lemma query_counter:
  "routerCount (snd (query f s)) = routerCount s"
  "routerIds (fst (query f s) # vs) = routerIds vs"
  by (simp_all add: query_def)

lemma run_ids:
  "routerIds (fst (run calls s)) = map string_of_nat [routerCount s ..< routerCount s + compositions calls]
   \<and> routerCount (snd (run calls s)) = routerCount s + compositions calls"
proof (induction calls arbitrary: s)
  case Nil
  show ?case by simp
next
  case (Cons c cs)
  show ?case
  proof (cases c)
    case (CallQuery f)
    then show ?thesis using Cons [of "snd (query f s)"] query_counter [of f s]
      by (simp add: split_beta)
  next
    case (CallMutation f)
    then show ?thesis using Cons [of s]
      by (simp add: split_beta mutation_def)
  next
    case (CallCreateRouter routes)
    then show ?thesis using Cons [of "snd (createRouter routes s)"] createRouter_counter [of routes s]
      by (simp add: split_beta upt_rec [of "routerCount s"])
  qed
qed

subsection \<open>What the middleware does to a slot\<close>

text \<open>
  A call of a slot's function emits the bound prefix if there is one and the key argument
  otherwise. The middleware keeps the length of the store, every slot that is not a direct
  Query leaf of the definition and every user function; a slot with a bound prefix keeps
  it, and a slot without one gets the full key of the first name it is listed under.
\<close>

lemma callUseQuery_eq:
  "callUseQuery u args options key =
     \<lparr>queryKey = (case boundPrefix u of None \<Rightarrow> key | Some p \<Rightarrow> Some p, Some args),
      queryFn = queryFnBody (wrappedFn u) args options,
      spreadOptions = options\<rparr>"
  by (induction u arbitrary: key) (auto split: option.splits)

lemma middleware_length [simp]:
  "length (applyQueryKeyMiddleware routes routerId qs) = length qs"
  by (induction routes routerId qs rule: applyQueryKeyMiddleware.induct) simp_all

lemma middleware_frame:
  "a \<notin> set (queryLeaves routes) \<Longrightarrow> applyQueryKeyMiddleware routes routerId qs ! a = qs ! a"
  by (induction routes routerId qs rule: applyQueryKeyMiddleware.induct) simp_all

lemma middleware_wrappedFn:
  "a < length qs \<Longrightarrow> wrappedFn (applyQueryKeyMiddleware routes routerId qs ! a) = wrappedFn (qs ! a)"
proof (induction routes routerId qs rule: applyQueryKeyMiddleware.induct)
  case (2 key b rest routerId qs)
  then show ?case by (cases "a = b") simp_all
qed simp_all

lemma middleware_boundPrefix:
  "a < length qs \<Longrightarrow>
   boundPrefix (applyQueryKeyMiddleware routes routerId qs ! a) =
     (case boundPrefix (qs ! a) of
        Some p \<Rightarrow> Some p
      | None \<Rightarrow> map_option (fullKey routerId) (firstName a routes))"
proof (induction routes routerId qs rule: applyQueryKeyMiddleware.induct)
  case (2 key b rest routerId qs)
  then show ?case by (cases "a = b") (simp_all split: option.splits)
qed (simp_all split: option.splits)

lemma firstName_member: "firstName a routes = Some n \<Longrightarrow> (n, Query a) \<in> set routes"
  by (induction a routes rule: firstName.induct) (auto split: if_splits)




subsection \<open>Namespace ids\<close>

text \<open>
  C2. In every client program run from the initial module state, the namespace ids of the
  instances that the calls of \<^verbatim>\<open>createRouter\<close> return are the numerals of 0, 1, 2, ... in
  call order, they are pairwise distinct, and the counter ends at the number of
  compositions. Every single call takes the value of the counter before the call as its
  id and increments the counter by one.
\<close>

theorem namespace_ids_in_call_order:
  "routerIds (fst (run calls initial)) = map string_of_nat [0 ..< compositions calls]
   \<and> distinct (routerIds (fst (run calls initial)))
   \<and> routerCount (snd (run calls initial)) = compositions calls
   \<and> contextId (fst (createRouter routes s)) = string_of_nat (routerCount s)
   \<and> routerCount (snd (createRouter routes s)) = routerCount s + 1"
proof -
  have ids: "routerIds (fst (run calls initial)) = map string_of_nat [0 ..< compositions calls]"
    and cnt: "routerCount (snd (run calls initial)) = compositions calls"
    using run_ids [of calls initial] by (simp_all add: initial_def)
  have "inj_on string_of_nat (set [0 ..< compositions calls])"
    by (rule inj_onI) (rule string_of_nat_inj)
  then have "distinct (map string_of_nat [0 ..< compositions calls])"
    by (simp add: distinct_map)
  with ids cnt show ?thesis
    by (simp add: createRouter_counter)
qed

subsection \<open>Composing a leaf again\<close>

text \<open>Numerals of the first namespace ids, for evaluating examples.\<close>

lemmas numeral_string = string_of_nat.simps [of 0] string_of_nat.simps [of "Suc 0"] string_of_nat.simps [of 1] string_of_nat.simps [of 2]

lemma createRouter_queries:
  "queries (snd (createRouter routes s)) =
     applyQueryKeyMiddleware routes (string_of_nat (routerCount s)) (queries s)"
  by (simp add: createRouter_def Let_def)

lemma createRouter_members:
  "members (fst (createRouter routes s)) = filter (\<lambda>(key, value). key \<noteq> ''useContext'') routes"
  "contextRoutes (fst (createRouter routes s)) = routes"
  by (simp_all add: createRouter_def Let_def)


text \<open>
  C3, as the code has it. A second composition writes the slot of an already namespaced
  leaf again, with a wrapper that carries the new full key. That wrapper passes its key as
  a third argument to the earlier wrapper, which has two parameters and passes its own.
  So whatever is composed afterwards, the public call \<^verbatim>\<open>useQuery(args, options)\<close> of a
  leaf with a bound prefix hands the engine the same object as before, under the prefix of
  the first composition.
\<close>

theorem recomposition_keeps_first_prefix:
  assumes "a < length (queries s)" and "boundPrefix (queries s ! a) = Some p"
  shows "useQuery (snd (createRouter routes s)) (Query a) args options = useQuery s (Query a) args options
     \<and> map_option queryKey (useQuery (snd (createRouter routes s)) (Query a) args options)
         = Some (Some p, Some args)
     \<and> queries (snd (createRouter [(key, Query a)] s)) ! a
         = Namespaced (queries s ! a) (fullKey (string_of_nat (routerCount s)) key)"
proof -
  let ?qs = "applyQueryKeyMiddleware routes (string_of_nat (routerCount s)) (queries s)"
  have b: "boundPrefix (?qs ! a) = Some p"
    using assms by (simp add: middleware_boundPrefix)
  have w: "wrappedFn (?qs ! a) = wrappedFn (queries s ! a)"
    using assms by (simp add: middleware_wrappedFn)
  have "callUseQuery (?qs ! a) args options None = callUseQuery (queries s ! a) args options None"
    using b w assms(2) by (simp add: callUseQuery_eq)
  moreover have "queryKey (callUseQuery (queries s ! a) args options None) = (Some p, Some args)"
    using assms(2) by (simp add: callUseQuery_eq)
  ultimately show ?thesis
    using assms(1) by (simp add: createRouter_queries)
qed

text \<open>The theorem at a leaf bound to \<^verbatim>\<open>0/a\<close> that is composed again as \<^verbatim>\<open>a\<close>.\<close>

theorem recomposition_keeps_first_prefix_witness:
  "map_option queryKey
     (useQuery (snd (createRouter [(''a'', Query 0)]
          \<lparr>routerCount = 1, queries = [Namespaced (UseQuery Inr) ''0/a'']\<rparr>)) (Query 0) (5::nat) None)
     = Some (Some ''0/a'', Some 5)"
  using recomposition_keeps_first_prefix
    [of 0 "\<lparr>routerCount = 1, queries = [Namespaced (UseQuery Inr) ''0/a'']\<rparr>" "''0/a''"
        "[(''a'', Query 0)]" "5::nat" None]
  by simp

text \<open>
  C3 as claimed fails: one leaf is composed as \<^verbatim>\<open>a\<close> into router 0 and again as \<^verbatim>\<open>a\<close>
  into router 1. A public call afterwards emits the prefix \<^verbatim>\<open>0/a\<close> of the first
  composition, not \<^verbatim>\<open>1/a\<close> of the most recent one.
\<close>

theorem recomposed_leaf_not_renamed:
  "routerIds (fst (run [CallQuery Inr, CallCreateRouter [(''a'', Query 0)],
                        CallCreateRouter [(''a'', Query 0)]] (initial :: nat state))) = [''0'', ''1'']
   \<and> map_option queryKey
       (useQuery (snd (run [CallQuery Inr, CallCreateRouter [(''a'', Query 0)],
                            CallCreateRouter [(''a'', Query 0)]] initial)) (Query 0) (5::nat) None)
       = Some (Some ''0/a'', Some 5)
   \<and> map_option queryKey
       (useQuery (snd (run [CallQuery Inr, CallCreateRouter [(''a'', Query 0)],
                            CallCreateRouter [(''a'', Query 0)]] initial)) (Query 0) (5::nat) None)
       \<noteq> Some (Some (fullKey ''1'' ''a''), Some 5)"
  by (simp add: initial_def query_def createRouter_def Let_def numeral_string fullKey_def)

subsection \<open>The definition and the instance share their leaves\<close>

text \<open>
  C9, as the code has it. For a Query leaf under a name other than \<^verbatim>\<open>useContext\<close>, a call
  through the definition after the composition and a call through the returned instance
  hand the engine the same object. When the leaf had no bound prefix before and the name
  is the first one it is listed under, the key is the namespace id of the instance, a
  slash and the name, with the arguments.
\<close>

theorem composition_shares_leaves:
  assumes "createRouter routes s = (inst, s')" and "map_of routes n = Some (Query a)"
    and "n \<noteq> ''useContext''"
  shows "invoke (members inst) n s' args options = invoke routes n s' args options
     \<and> (a < length (queries s) \<and> boundPrefix (queries s ! a) = None \<and> firstName a routes = Some n
          \<longrightarrow> map_option queryKey (invoke routes n s' args options)
              = Some (Some (fullKey (contextId inst) n), Some args))"
proof -
  have inst: "inst = fst (createRouter routes s)" and s': "s' = snd (createRouter routes s)"
    using assms(1) by simp_all
  have "map_of (filter (\<lambda>(key, value). key \<noteq> ''useContext'') routes) n = Some (Query a)"
    using assms(2,3) by (intro map_of_filter_in) simp_all
  then have same: "invoke (members inst) n s' args options = invoke routes n s' args options"
    using assms(2) by (simp add: invoke_def inst createRouter_members)
  have "map_option queryKey (invoke routes n s' args options)
          = Some (Some (fullKey (contextId inst) n), Some args)"
    if "a < length (queries s)" "boundPrefix (queries s ! a) = None" "firstName a routes = Some n"
    using that assms(2)
    by (simp add: invoke_def inst s' createRouter_queries createRouter_counter
          callUseQuery_eq middleware_boundPrefix)
  with same show ?thesis by blast
qed

text \<open>The theorem at a fresh leaf composed as \<^verbatim>\<open>a\<close> by the first composition.\<close>

theorem composition_shares_leaves_witness:
  "invoke (members (fst (createRouter [(''a'', Query 0)] \<lparr>routerCount = 0, queries = [UseQuery Inr]\<rparr>)))
      ''a'' (snd (createRouter [(''a'', Query 0)] \<lparr>routerCount = 0, queries = [UseQuery Inr]\<rparr>)) (5::nat) None
    = invoke [(''a'', Query 0)] ''a''
        (snd (createRouter [(''a'', Query 0)] \<lparr>routerCount = 0, queries = [UseQuery Inr]\<rparr>)) 5 None
   \<and> map_option queryKey (invoke [(''a'', Query 0)] ''a''
        (snd (createRouter [(''a'', Query 0)] \<lparr>routerCount = 0, queries = [UseQuery Inr]\<rparr>)) (5::nat) None)
      = Some (Some ''0/a'', Some 5)"
  using composition_shares_leaves
    [of "[(''a'', Query 0)]" "\<lparr>routerCount = 0, queries = [UseQuery Inr]\<rparr>"
        "fst (createRouter [(''a'', Query 0)] \<lparr>routerCount = 0, queries = [UseQuery Inr]\<rparr>)"
        "snd (createRouter [(''a'', Query 0)] \<lparr>routerCount = 0, queries = [UseQuery Inr]\<rparr>)"
        "''a''" 0 "5::nat" None]
  by (simp add: createRouter_counter numeral_string fullKey_def)

text \<open>
  C9 as claimed fails: a leaf composed as \<^verbatim>\<open>a\<close> into router 0 is composed as \<^verbatim>\<open>b\<close> into
  router 1. Through the second definition and through the second instance alike, the
  call emits \<^verbatim>\<open>0/a\<close>, not \<^verbatim>\<open>1/b\<close>.
\<close>

theorem second_composition_key_is_not_its_own:
  "contextId (last (fst (run [CallQuery Inr, CallCreateRouter [(''a'', Query 0)],
                        CallCreateRouter [(''b'', Query 0)]] (initial :: nat state)))) = ''1''
   \<and> map_option queryKey
       (invoke [(''b'', Query 0)] ''b''
          (snd (run [CallQuery Inr, CallCreateRouter [(''a'', Query 0)],
                     CallCreateRouter [(''b'', Query 0)]] initial)) (5::nat) None)
       = Some (Some ''0/a'', Some 5)
   \<and> map_option queryKey
       (invoke (members (last (fst (run [CallQuery Inr, CallCreateRouter [(''a'', Query 0)],
                     CallCreateRouter [(''b'', Query 0)]] (initial :: nat state))))) ''b''
          (snd (run [CallQuery Inr, CallCreateRouter [(''a'', Query 0)],
                     CallCreateRouter [(''b'', Query 0)]] initial)) (5::nat) None)
       = Some (Some ''0/a'', Some 5)
   \<and> Some (Some ''0/a'', Some (5::nat)) \<noteq> Some (Some (fullKey ''1'' ''b''), Some 5)"
  by (simp add: initial_def query_def createRouter_def Let_def numeral_string fullKey_def invoke_def)

subsection \<open>The frame of the middleware\<close>




subsection \<open>Queries that were never composed\<close>

lemma exec_keeps_uncomposed:
  assumes "\<forall>routes. c = CallCreateRouter routes \<longrightarrow> a \<notin> set (queryLeaves routes)"
    and "a < length (queries s) \<longrightarrow> boundPrefix (queries s ! a) = None"
  shows "a < length (queries (snd (exec c s))) \<longrightarrow> boundPrefix (queries (snd (exec c s)) ! a) = None"
proof (cases c)
  case (CallQuery f)
  then show ?thesis using assms(2) by (auto simp add: query_def nth_append)
next
  case (CallMutation f)
  then show ?thesis using assms(2) by simp
next
  case (CallCreateRouter routes)
  then have "a \<notin> set (queryLeaves routes)" using assms(1) by simp
  then show ?thesis using assms(2) CallCreateRouter
    by (simp add: createRouter_queries middleware_frame)
qed

lemma run_keeps_uncomposed:
  assumes "\<forall>routes. CallCreateRouter routes \<in> set calls \<longrightarrow> a \<notin> set (queryLeaves routes)"
    and "a < length (queries s) \<longrightarrow> boundPrefix (queries s ! a) = None"
  shows "a < length (queries (snd (run calls s))) \<longrightarrow> boundPrefix (queries (snd (run calls s)) ! a) = None"
  using assms
proof (induction calls arbitrary: s)
  case Nil
  then show ?case by simp
next
  case (Cons c cs)
  have step: "a < length (queries (snd (exec c s))) \<longrightarrow> boundPrefix (queries (snd (exec c s)) ! a) = None"
    using Cons.prems by (intro exec_keeps_uncomposed) simp_all
  have "a < length (queries (snd (run cs (snd (exec c s))))) \<longrightarrow>
        boundPrefix (queries (snd (run cs (snd (exec c s)))) ! a) = None"
    using Cons.prems(1) step by (intro Cons.IH) simp_all
  then show ?case by (simp add: split_beta)
qed

text \<open>
  C10. In every client program run from the initial state, a Query object that is a direct
  leaf of no composed definition emits the key \<^verbatim>\<open>[undefined, args]\<close> on every public call
  \<^verbatim>\<open>useQuery(args, options)\<close>; so two such objects called with equal arguments emit the
  same key.
\<close>

theorem uncomposed_query_key:
  assumes "run calls initial = (vs, s)"
    and "a < length (queries s)" and "b < length (queries s)"
    and "\<forall>routes. CallCreateRouter routes \<in> set calls \<longrightarrow>
           a \<notin> set (queryLeaves routes) \<and> b \<notin> set (queryLeaves routes)"
  shows "map_option queryKey (useQuery s (Query a) args options) = Some (None, Some args)
     \<and> map_option queryKey (useQuery s (Query a) args options)
         = map_option queryKey (useQuery s (Query b) args options')"
proof -
  have s: "s = snd (run calls initial)" using assms(1) by simp
  have "boundPrefix (queries s ! a) = None"
    using run_keeps_uncomposed [of calls a initial] assms(2,4) by (simp add: s initial_def)
  moreover have "boundPrefix (queries s ! b) = None"
    using run_keeps_uncomposed [of calls b initial] assms(3,4) by (simp add: s initial_def)
  ultimately show ?thesis using assms(2,3) by (simp add: callUseQuery_eq)
qed

text \<open>The theorem at two queries beside a composition that holds neither.\<close>

theorem uncomposed_query_key_witness:
  "map_option queryKey
     (useQuery (snd (run [CallQuery Inr, CallQuery Inl, CallCreateRouter [(''m'', Mutation Inr)]] initial))
        (Query 0) (5::nat) None) = Some (None, Some 5)
   \<and> map_option queryKey
     (useQuery (snd (run [CallQuery Inr, CallQuery Inl, CallCreateRouter [(''m'', Mutation Inr)]] initial))
        (Query 0) (5::nat) None)
     = map_option queryKey
     (useQuery (snd (run [CallQuery Inr, CallQuery Inl, CallCreateRouter [(''m'', Mutation Inr)]] initial))
        (Query 1) (5::nat) None)"
  using uncomposed_query_key
    [of "[CallQuery Inr, CallQuery Inl, CallCreateRouter [(''m'', Mutation Inr)]]"
        "fst (run [CallQuery Inr, CallQuery Inl, CallCreateRouter [(''m'', Mutation Inr)]] initial)"
        "snd (run [CallQuery Inr, CallQuery Inl, CallCreateRouter [(''m'', Mutation Inr)]] initial)"
        0 1 "5::nat" None None]
  by (simp add: initial_def query_def createRouter_def Let_def)

subsection \<open>Uniqueness of key prefixes\<close>

lemma prefixInvariant_initial: "prefixInvariant initial"
  by (simp add: prefixInvariant_def initial_def)

lemma prefixInvariant_query:
  assumes "prefixInvariant s"
  shows "prefixInvariant (snd (query f s))"
proof -
  have nth: "\<And>a. a < Suc (length (queries s)) \<Longrightarrow>
      boundPrefix ((queries s @ [UseQuery f]) ! a) =
        (if a < length (queries s) then boundPrefix (queries s ! a) else None)"
    by (simp add: nth_append)
  show ?thesis
    unfolding prefixInvariant_def
  proof (intro conjI allI impI)
    fix a p
    assume "a < length (queries (snd (query f s)))"
      and "boundPrefix (queries (snd (query f s)) ! a) = Some p"
    then have "a < length (queries s)" and "boundPrefix (queries s ! a) = Some p"
      using nth [of a] by (auto simp add: query_def split: if_splits)
    then show "\<exists>i<routerCount (snd (query f s)). \<exists>n. p = fullKey (string_of_nat i) n"
      using assms by (simp add: prefixInvariant_def query_def)
  next
    fix a b
    assume a: "a < length (queries (snd (query f s)))"
      and b: "b < length (queries (snd (query f s)))"
      and some: "boundPrefix (queries (snd (query f s)) ! a) \<noteq> None"
      and eq: "boundPrefix (queries (snd (query f s)) ! a) = boundPrefix (queries (snd (query f s)) ! b)"
    have a': "a < length (queries s)" and pa: "boundPrefix (queries s ! a) \<noteq> None"
      using a some nth [of a] by (auto simp add: query_def split: if_splits)
    have b': "b < length (queries s)"
      using b some eq nth [of b] by (auto simp add: query_def split: if_splits)
    have "boundPrefix (queries s ! a) = boundPrefix (queries s ! b)"
      using eq a' b' by (simp add: query_def nth_append)
    then show "a = b" using assms a' b' pa by (simp add: prefixInvariant_def)
  qed
qed

lemma prefixInvariant_createRouter:
  assumes inv: "prefixInvariant s" and dist: "distinct (map fst routes)"
  shows "prefixInvariant (snd (createRouter routes s))"
proof -
  let ?rid = "string_of_nat (routerCount s)"
  let ?qs = "applyQueryKeyMiddleware routes ?rid (queries s)"
  have bp: "\<And>a. a < length (queries s) \<Longrightarrow>
      boundPrefix (?qs ! a) =
        (case boundPrefix (queries s ! a) of
           Some p \<Rightarrow> Some p
         | None \<Rightarrow> map_option (fullKey ?rid) (firstName a routes))"
    by (rule middleware_boundPrefix)
  have old: "\<And>a p. a < length (queries s) \<Longrightarrow> boundPrefix (queries s ! a) = Some p \<Longrightarrow>
      \<exists>i<routerCount s. \<exists>n. p = fullKey (string_of_nat i) n"
    using inv by (simp add: prefixInvariant_def)
  have fresh: "\<And>a p m. a < length (queries s) \<Longrightarrow> boundPrefix (queries s ! a) = Some p \<Longrightarrow>
      p \<noteq> fullKey ?rid m"
  proof
    fix a p m
    assume "a < length (queries s)" "boundPrefix (queries s ! a) = Some p" "p = fullKey ?rid m"
    with old [of a p] obtain i n where "i < routerCount s"
      and "fullKey (string_of_nat i) n = fullKey ?rid m" by auto
    then show False by (simp add: fullKey_inj)
  qed
  show ?thesis
    unfolding prefixInvariant_def createRouter_queries createRouter_counter middleware_length
  proof (intro conjI allI impI)
    fix a p
    assume a: "a < length (queries s)" and p: "boundPrefix (?qs ! a) = Some p"
    show "\<exists>i<Suc (routerCount s). \<exists>n. p = fullKey (string_of_nat i) n"
    proof (cases "boundPrefix (queries s ! a)")
      case None
      with p bp [OF a] obtain n where "p = fullKey ?rid n" by auto
      then show ?thesis by blast
    next
      case (Some q)
      with p bp [OF a] have "p = q" by simp
      with old [OF a Some] show ?thesis using less_Suc_eq by auto
    qed
  next
    fix a b
    assume a: "a < length (queries s)" and b: "b < length (queries s)"
      and some: "boundPrefix (?qs ! a) \<noteq> None"
      and eq: "boundPrefix (?qs ! a) = boundPrefix (?qs ! b)"
    from some obtain p where pa: "boundPrefix (?qs ! a) = Some p" by auto
    with eq have pb: "boundPrefix (?qs ! b) = Some p" by simp
    show "a = b"
    proof (cases "boundPrefix (queries s ! a)")
      case None
      with pa bp [OF a] obtain n where n: "firstName a routes = Some n" "p = fullKey ?rid n" by auto
      show ?thesis
      proof (cases "boundPrefix (queries s ! b)")
        case None
        with pb bp [OF b] obtain m where m: "firstName b routes = Some m" "p = fullKey ?rid m" by auto
        from n m have "n = m" using fullKey_inj by metis
        with n m have "(n, Query a) \<in> set routes" "(n, Query b) \<in> set routes"
          using firstName_member by metis+
        with dist have "(Query a :: 'a route) = Query b" by (rule eq_key_imp_eq_value)
        then show ?thesis by simp
      next
        case (Some q)
        with pb bp [OF b] have "q = p" by simp
        with fresh [OF b Some, of n] n show ?thesis by simp
      qed
    next
      case (Some q)
      with pa bp [OF a] have qa: "q = p" by simp
      show ?thesis
      proof (cases "boundPrefix (queries s ! b)")
        case None
        with pb bp [OF b] obtain m where "p = fullKey ?rid m" by auto
        with fresh [OF a Some, of m] qa show ?thesis by simp
      next
        case (Some q')
        with pb bp [OF b] have "q' = p" by simp
        with Some \<open>boundPrefix (queries s ! a) = Some q\<close> qa inv a b show ?thesis
          by (simp add: prefixInvariant_def)
      qed
    qed
  qed
qed

lemma prefixInvariant_run:
  assumes "\<forall>routes. CallCreateRouter routes \<in> set calls \<longrightarrow> distinct (map fst routes)"
    and "prefixInvariant s"
  shows "prefixInvariant (snd (run calls s))"
  using assms
proof (induction calls arbitrary: s)
  case Nil
  then show ?case by simp
next
  case (Cons c cs)
  have "prefixInvariant (snd (exec c s))"
  proof (cases c)
    case (CallQuery f)
    then show ?thesis using Cons.prems(2) by (simp add: prefixInvariant_query)
  next
    case (CallMutation f)
    then show ?thesis using Cons.prems(2) by simp
  next
    case (CallCreateRouter routes)
    then show ?thesis using Cons.prems by (simp add: prefixInvariant_createRouter)
  qed
  then have "prefixInvariant (snd (run cs (snd (exec c s))))"
    using Cons.prems(1) by (intro Cons.IH) simp_all
  then show ?case by (simp add: split_beta)
qed

text \<open>
  In every client program run from the initial state whose definitions have distinct
  property names, two different Query objects never have the same bound prefix.
\<close>

lemma distinct_objects_distinct_prefixes:
  assumes "\<forall>routes. CallCreateRouter routes \<in> set calls \<longrightarrow> distinct (map fst routes)"
    and "a < length (queries (snd (run calls initial)))"
    and "b < length (queries (snd (run calls initial)))"
    and "a \<noteq> b" and "boundPrefix (queries (snd (run calls initial)) ! a) \<noteq> None"
  shows "boundPrefix (queries (snd (run calls initial)) ! a)
           \<noteq> boundPrefix (queries (snd (run calls initial)) ! b)"
proof -
  have "prefixInvariant (snd (run calls initial))"
    using assms(1) prefixInvariant_initial by (rule prefixInvariant_run)
  then show ?thesis using assms(2-5) unfolding prefixInvariant_def by blast
qed











subsection \<open>The shape of a context tree\<close>







subsection \<open>The lifecycle callbacks of a query\<close>

text \<open>
  When no callback throws, one run of the fetcher takes exactly one branch: on success
  \<^verbatim>\<open>onSuccess(result)\<close> then \<^verbatim>\<open>onSettled(result, null)\<close>, each if present, and the
  result is returned; on failure \<^verbatim>\<open>onError(error)\<close> then \<^verbatim>\<open>onSettled(undefined, error)\<close>,
  each if present, and the error is thrown again.
\<close>

lemma queryFnBody_resolves:
  assumes "queryFn' args = Inr result"
    and "\<And>f. Option.bind options onSuccess = Some f \<Longrightarrow> f result = None"
    and "\<And>f. Option.bind options onSettled = Some f \<Longrightarrow> f (Some result) None = None"
  shows "queryFnBody queryFn' args options =
     ((case Option.bind options onSuccess of None \<Rightarrow> [] | Some f \<Rightarrow> [OnSuccess result]) @
      (case Option.bind options onSettled of None \<Rightarrow> [] | Some f \<Rightarrow> [OnSettled (Some result) None]),
      Inr result)"
  using assms by (auto simp add: queryFnBody_def fire_def split: option.splits)

lemma queryFnBody_rejects:
  assumes "queryFn' args = Inl error"
    and "\<And>f. Option.bind options onError = Some f \<Longrightarrow> f error = None"
    and "\<And>f. Option.bind options onSettled = Some f \<Longrightarrow> f None (Some error) = None"
  shows "queryFnBody queryFn' args options =
     ((case Option.bind options onError of None \<Rightarrow> [] | Some f \<Rightarrow> [OnError error]) @
      (case Option.bind options onSettled of None \<Rightarrow> [] | Some f \<Rightarrow> [OnSettled None (Some error)]),
      Inl error)"
  using assms by (auto simp add: queryFnBody_def catchBlock_def fire_def split: option.splits)

text \<open>
  C4. The claim is that per attempt exactly one of the success and failure branches runs
  and \<^verbatim>\<open>onSettled\<close> fires exactly once. The \<^verbatim>\<open>try\<close> block of the source also holds the
  success callbacks: here the user function resolves to 1 and \<^verbatim>\<open>onSettled(1, null)\<close>
  throws 7. The success branch ran, then the failure branch ran with the callback's
  error, \<^verbatim>\<open>onSettled\<close> fired twice, and the fetcher rejects although the user function
  resolved.
\<close>

theorem queryFn_settled_callback_throws:
  "queryFnBody (\<lambda>x. Inr x) (1::nat)
     (Some \<lparr>onError = Some (\<lambda>e. None), onSuccess = Some (\<lambda>r. None),
            onSettled = Some (\<lambda>d e. case d of Some r \<Rightarrow> Some 7 | None \<Rightarrow> None)\<rparr>)
   = ([OnSuccess 1, OnSettled (Some 1) None, OnError 7, OnSettled None (Some 7)], Inl 7)"
  by (simp add: queryFnBody_def catchBlock_def fire_def)

subsection \<open>Mutations\<close>

text \<open>
  C8. Invoking a wrapped Mutation hands the engine's mutation primitive the caller's
  options unchanged and a function that, on the mutation's variables, settles exactly as
  the wrapped function does: the same result or the same failure. The object handed over
  holds no key, and the call reads nothing of the module state.
\<close>

theorem mutation_passthrough:
  "useMutation (mutation f) options = Some \<lparr>mutationFn = f, mutationOptions = options\<rparr>"
proof -
  have "(\<lambda>args. case f args of Inl error \<Rightarrow> Inl error | Inr res \<Rightarrow> Inr res) = f"
    by (rule ext) (simp split: sum.split)
  then show ?thesis by (simp add: mutation_def)
qed

subsection \<open>The accessors of a context\<close>

text \<open>
  C7. On the accessor of one leaf, \<^verbatim>\<open>setData(args, value)\<close> followed by \<^verbatim>\<open>getData(args)\<close>
  returns \<open>value\<close>; both calls address the key \<^verbatim>\<open>[baseKey, args]\<close>, and the engine has
  started no fetcher in between.
\<close>

theorem setData_then_getData:
  "fst (perform (getData baseKey k) (snd (perform (setData baseKey k data) client))) = Some data
   \<and> fetches (snd (perform (getData baseKey k) (snd (perform (setData baseKey k data) client))))
       = fetches client
   \<and> callKey (getData baseKey k) = (Some baseKey, k)
   \<and> callKey (setData baseKey k data) = (Some baseKey, k)"
  by (simp add: getData_def setData_def getQueryData_def setQueryData_def)

end
